theory Spec2Isabelle
  imports Main
begin

section \<open>Task Service (services/graphql-api/server.js): data model\<close>

text \<open>
  The server is the second document of \<^verbatim>\<open>src/frontend-app/src/app/page.tsx\<close> (from the
  line \<^verbatim>\<open>// services/graphql-api/server.js\<close> on). Node runs each resolver to its end
  before the next one starts, so a resolver is a function from the state before to the
  state after; \<open>await\<close> is sequencing.

  The GraphQL enum \<open>TaskStatus\<close>, the task and activity objects held in the two
  in-memory arrays, and the per-request context object built from the HTTP headers.
  The record field \<open>task_id\<close> is the source's \<open>task.id\<close>, \<open>activity_id\<close> and
  \<open>activity_createdAt\<close> are \<open>activity.id\<close> and \<open>activity.createdAt\<close>.
  Timestamps are the ISO strings of \<open>new Date().toISOString()\<close>.
\<close>

datatype TaskStatus = TODO | IN_PROGRESS | DONE

record Task =
  task_id :: string
  title :: string
  description :: string
  status :: TaskStatus
  assignee :: string
  createdAt :: string
  updatedAt :: string

record TaskActivity =
  activity_id :: string
  taskId :: string
  message :: string
  author :: string
  activity_createdAt :: string

record Context =
  userId :: string
  userName :: string
  userEmail :: string
  userTeams :: "string list"
  userRole :: string

text \<open>
  Every \<open>throw new Error(msg)\<close> of the source is a value; the constructor is the class the
  specification gives the failure, the argument is the message of the source.
  \<open>JsonWebTokenError\<close> stands for whatever \<open>jwt.verify\<close> throws.
\<close>

datatype error =
    AuthenticationError string
  | NotFoundError string
  | ForbiddenError string
  | KeyUnavailableError string
  | JsonWebTokenError string

text \<open>The calls of \<open>pubsub.publish(topic, payload)\<close>, in the order they are made.\<close>

datatype event =
    TASK_CREATED Task
  | TASK_UPDATED Task
  | TASK_DELETED string
  | TASK_ACTIVITY_ADDED TaskActivity

text \<open>
  The mutable module state: the arrays \<open>tasks\<close> and \<open>taskActivities\<close>, and the log of
  what was published on the bus.
\<close>

record server_state =
  tasks :: "Task list"
  taskActivities :: "TaskActivity list"
  published :: "event list"

section \<open>Array helpers of JavaScript\<close>

text \<open>\<open>Array.prototype.findIndex\<close>: the first index whose element satisfies the
  predicate; the source's \<open>-1\<close> is \<open>None\<close>.\<close>

fun findIndex :: "('a \<Rightarrow> bool) \<Rightarrow> 'a list \<Rightarrow> nat option" where
  "findIndex P [] = None"
| "findIndex P (x # xs) = (if P x then Some 0 else map_option Suc (findIndex P xs))"

text \<open>\<open>xs.splice(idx, 1)\<close>: the array without the element at \<open>idx\<close>.\<close>

definition splice1 :: "nat \<Rightarrow> 'a list \<Rightarrow> 'a list" where
  "splice1 idx xs = take idx xs @ drop (Suc idx) xs"

text \<open>\<open>a || b\<close> on strings: the empty string is falsy.\<close>

definition or_else :: "string \<Rightarrow> string \<Rightarrow> string" where
  "or_else a b = (if a \<noteq> [] then a else b)"

text \<open>\<open>o.field || b\<close> where the field may be absent (\<open>undefined\<close>).\<close>

definition opt_or_else :: "string option \<Rightarrow> string \<Rightarrow> string" where
  "opt_or_else a b = (case a of None \<Rightarrow> b | Some v \<Rightarrow> or_else v b)"

text \<open>\<open>s.split(c)\<close> for a one-character separator.\<close>

fun split_on :: "char \<Rightarrow> string \<Rightarrow> string list" where
  "split_on c [] = [[]]"
| "split_on c (x # xs) =
     (if x = c then [] # split_on c xs
      else (case split_on c xs of
              [] \<Rightarrow> [[x]]
            | y # ys \<Rightarrow> (x # y) # ys))"

definition startsWith :: "string \<Rightarrow> string \<Rightarrow> bool" where
  "startsWith s p = (take (length p) s = p)"

section \<open>Resolvers\<close>

text \<open>
  A resolver takes its arguments, the context and the state and returns its result or
  the error it throws, together with the state it leaves. \<open>uuid\<close> is the value of
  \<open>uuidv4()\<close> and \<open>now\<close> the value of \<open>new Date().toISOString()\<close> in this call.
\<close>

text \<open>Query \<open>task(id)\<close>: \<open>tasks.find((task) => task.id === id)\<close>.\<close>

definition getTask :: "string \<Rightarrow> server_state \<Rightarrow> Task option" where
  "getTask id' s = find (\<lambda>task. task_id task = id') (tasks s)"

text \<open>Field \<open>Task.activities\<close>: \<open>taskActivities.filter((a) => a.taskId === parent.id)\<close>.\<close>

definition activities :: "string \<Rightarrow> server_state \<Rightarrow> TaskActivity list" where
  "activities parent_id s = filter (\<lambda>a. taskId a = parent_id) (taskActivities s)"

definition createTask ::
  "string \<Rightarrow> string \<Rightarrow> string \<Rightarrow> string \<Rightarrow> string \<Rightarrow> Context \<Rightarrow> server_state
     \<Rightarrow> (error + Task) \<times> server_state" where
  "createTask title' description' assignee' uuid now context s =
     (if userId context = [] then
        (Inl (AuthenticationError ''Authentication required to create a task.''), s)
      else
        let task = \<lparr> task_id = uuid,
                     title = title',
                     description = description',
                     status = TODO,
                     assignee = or_else assignee' (or_else (userName context) ''Unassigned''),
                     createdAt = now,
                     updatedAt = now \<rparr>
        in (Inr task,
            s\<lparr> tasks := tasks s @ [task],
               published := published s @ [TASK_CREATED task] \<rparr>))"

text \<open>
  The optional arguments of \<open>updateTask\<close> are \<open>None\<close> when absent (or \<open>null\<close>).
  \<open>...(title && { title })\<close> overwrites the field only when the argument is truthy:
  present and not the empty string.
\<close>

definition merge_field :: "string option \<Rightarrow> string \<Rightarrow> string" where
  "merge_field arg old = (case arg of None \<Rightarrow> old | Some v \<Rightarrow> if v \<noteq> [] then v else old)"

definition merge_status :: "TaskStatus option \<Rightarrow> TaskStatus \<Rightarrow> TaskStatus" where
  "merge_status arg old = (case arg of None \<Rightarrow> old | Some v \<Rightarrow> v)"

definition updateTask ::
  "string \<Rightarrow> string option \<Rightarrow> string option \<Rightarrow> TaskStatus option \<Rightarrow> string option
     \<Rightarrow> string \<Rightarrow> Context \<Rightarrow> server_state \<Rightarrow> (error + Task) \<times> server_state" where
  "updateTask id' title' description' status' assignee' now context s =
     (case findIndex (\<lambda>t. task_id t = id') (tasks s) of
        None \<Rightarrow> (Inl (NotFoundError ''Task not found''), s)
      | Some idx \<Rightarrow>
          let task = tasks s ! idx in
          if userRole context \<noteq> ''admin'' \<and> assignee task \<noteq> userName context then
            (Inl (ForbiddenError ''You are not allowed to update this task.''), s)
          else
            let updated = task\<lparr> title := merge_field title' (title task),
                                description := merge_field description' (description task),
                                status := merge_status status' (status task),
                                assignee := merge_field assignee' (assignee task),
                                updatedAt := now \<rparr>
            in (Inr updated,
                s\<lparr> tasks := (tasks s)[idx := updated],
                   published := published s @ [TASK_UPDATED updated] \<rparr>))"

definition addTaskActivity ::
  "string \<Rightarrow> string \<Rightarrow> string \<Rightarrow> string \<Rightarrow> Context \<Rightarrow> server_state
     \<Rightarrow> (error + TaskActivity) \<times> server_state" where
  "addTaskActivity taskId' message' uuid now context s =
     (if userId context = [] then
        (Inl (AuthenticationError ''Authentication required to add activity.''), s)
      else
        case find (\<lambda>t. task_id t = taskId') (tasks s) of
          None \<Rightarrow> (Inl (NotFoundError ''Task not found''), s)
        | Some task \<Rightarrow>
            let activity = \<lparr> activity_id = uuid,
                             taskId = taskId',
                             message = message',
                             author = or_else (userName context) ''Unknown'',
                             activity_createdAt = now \<rparr>
            in (Inr activity,
                s\<lparr> taskActivities := taskActivities s @ [activity],
                   published := published s @ [TASK_ACTIVITY_ADDED activity] \<rparr>))"

definition deleteTask ::
  "string \<Rightarrow> Context \<Rightarrow> server_state \<Rightarrow> (error + bool) \<times> server_state" where
  "deleteTask id' context s =
     (case findIndex (\<lambda>t. task_id t = id') (tasks s) of
        None \<Rightarrow> (Inr False, s)
      | Some idx \<Rightarrow>
          let task = tasks s ! idx in
          if userRole context \<noteq> ''admin'' \<and> assignee task \<noteq> userName context then
            (Inl (ForbiddenError ''You are not allowed to delete this task.''), s)
          else
            (Inr True,
             s\<lparr> tasks := splice1 idx (tasks s),
                taskActivities := filter (\<lambda>a. taskId a \<noteq> id') (taskActivities s),
                published := published s @ [TASK_DELETED id'] \<rparr>))"

section \<open>Token verification and the request context\<close>

text \<open>
  The payload \<open>jwt.verify\<close> returns; a field is \<open>None\<close> when the token does not carry
  it (\<open>teams\<close> also when it is not an array).
\<close>

record payload =
  p_userId :: "string option"
  p_name :: "string option"
  p_email :: "string option"
  p_teams :: "string list option"
  p_role :: "string option"

text \<open>
  What the process takes from outside: the configured list \<open>PUBLIC_KEY_ENDPOINTS\<close>,
  the answer of \<open>axios.get(endpoint)\<close> (\<open>None\<close> when the request throws, otherwise
  \<open>response.data\<close>), and the library function
  \<open>jwt.verify(token, publicKey, { algorithms })\<close>.
\<close>

record auth_env =
  PUBLIC_KEY_ENDPOINTS :: "string list"
  axios_get :: "string \<Rightarrow> string option"
  jwt_verify :: "string \<Rightarrow> string \<Rightarrow> string list \<Rightarrow> error + payload"

text \<open>The \<open>for\<close> loop of \<open>getAuthPublicKey\<close>: the key returned and the new value of
  the cache, which is written only by an endpoint that answers non-empty content.\<close>

fun fetch_endpoints :: "(string \<Rightarrow> string option) \<Rightarrow> string list \<Rightarrow> string \<Rightarrow> string \<times> string" where
  "fetch_endpoints get [] cache = ([], cache)"
| "fetch_endpoints get (endpoint # rest) cache =
     (case get endpoint of
        None \<Rightarrow> fetch_endpoints get rest cache
      | Some data \<Rightarrow> if data \<noteq> [] then (data, data) else fetch_endpoints get rest cache)"

definition getAuthPublicKey :: "auth_env \<Rightarrow> string \<Rightarrow> string \<times> string" where
  "getAuthPublicKey env cachedAuthPublicKey =
     (if cachedAuthPublicKey \<noteq> [] then (cachedAuthPublicKey, cachedAuthPublicKey)
      else fetch_endpoints (axios_get env) (PUBLIC_KEY_ENDPOINTS env) cachedAuthPublicKey)"

definition decodeToken :: "auth_env \<Rightarrow> string \<Rightarrow> string \<Rightarrow> (error + payload) \<times> string" where
  "decodeToken env token cachedAuthPublicKey =
     (let (publicKey, cache') = getAuthPublicKey env cachedAuthPublicKey in
      if publicKey = [] then
        (Inl (KeyUnavailableError ''Public key unavailable for token verification''), cache')
      else (jwt_verify env token publicKey [''RS256''], cache'))"

type_synonym headers = "string \<rightharpoonup> string"

text \<open>\<open>req.headers[k] || d\<close>.\<close>

definition header_or :: "headers \<Rightarrow> string \<Rightarrow> string \<Rightarrow> string" where
  "header_or h k d = opt_or_else (h k) d"

text \<open>\<open>authHeader.startsWith('Bearer ') ? authHeader.split(' ')[1] : authHeader\<close>;
  an index past the end is \<open>undefined\<close>, which is falsy like the empty string.\<close>

definition bearer_token :: "string \<Rightarrow> string" where
  "bearer_token authHeader =
     (if startsWith authHeader ''Bearer '' then
        (case split_on CHR '' '' authHeader of
           _ # t # _ \<Rightarrow> t
         | _ \<Rightarrow> [])
      else authHeader)"

text \<open>The identity read from the forwarded headers, before any token is looked at.\<close>

definition header_identity :: "headers \<Rightarrow> Context" where
  "header_identity h =
     \<lparr> userId = header_or h ''x-user-id'' [],
       userName = header_or h ''x-user-name'' ''Guest'',
       userEmail = header_or h ''x-user-email'' [],
       userTeams = (case h ''x-user-teams'' of
                      None \<Rightarrow> []
                    | Some headerTeams \<Rightarrow>
                        if headerTeams \<noteq> [] then filter (\<lambda>t. t \<noteq> []) (split_on CHR '','' headerTeams)
                        else []),
       userRole = header_or h ''x-user-role'' ''user'' \<rparr>"

text \<open>The identity after a successful \<open>decodeToken\<close>.\<close>

definition apply_decoded :: "payload \<Rightarrow> Context \<Rightarrow> Context" where
  "apply_decoded decoded c =
     \<lparr> userId = opt_or_else (p_userId decoded) (userId c),
       userName = opt_or_else (p_name decoded) (userName c),
       userEmail = opt_or_else (p_email decoded) (userEmail c),
       userTeams = (case p_teams decoded of None \<Rightarrow> userTeams c | Some ts \<Rightarrow> ts),
       userRole = opt_or_else (p_role decoded) (userRole c) \<rparr>"

text \<open>
  The \<open>context\<close> function of the Apollo server. The \<open>catch\<close> around \<open>decodeToken\<close>
  logs a warning and goes on, so the function has no failing branch: it returns a
  context, together with the new state of the key cache. The payload is an object, so
  the test \<open>if (decoded)\<close> holds whenever \<open>decodeToken\<close> returns.
\<close>

definition make_context :: "auth_env \<Rightarrow> headers \<Rightarrow> string \<Rightarrow> Context \<times> string" where
  "make_context env h cachedAuthPublicKey =
     (let c = header_identity h in
      if userId c = [] then
        let authHeader = header_or h ''authorization'' [];
            token = bearer_token authHeader
        in if token \<noteq> [] then
             (case decodeToken env token cachedAuthPublicKey of
                (Inr decoded, cache') \<Rightarrow> (apply_decoded decoded c, cache')
              | (Inl err, cache') \<Rightarrow> (c, cache'))
           else (c, cachedAuthPublicKey)
      else (c, cachedAuthPublicKey))"

section \<open>The state at start-up\<close>

text \<open>
  The literals the two arrays are initialised with, and an empty bus. \<open>clock k\<close> is
  the value of the \<open>k\<close>-th \<open>new Date().toISOString()\<close> evaluated while the module loads.
\<close>

definition initial_state :: "(nat \<Rightarrow> string) \<Rightarrow> server_state" where
  "initial_state clock =
     \<lparr> tasks =
         [ \<lparr> task_id = ''t1'',
             title = ''Setup project structure'',
             description = ''Inisialisasi repository, konfigurasi Docker, dan API Gateway.'',
             status = TODO,
             assignee = ''John Doe'',
             createdAt = clock 0,
             updatedAt = clock 1 \<rparr>,
           \<lparr> task_id = ''t2'',
             title = ''Implement JWT authentication'',
             description = ''Integrasi JWT RS256 antara User Service dan API Gateway.'',
             status = IN_PROGRESS,
             assignee = ''Jane Smith'',
             createdAt = clock 2,
             updatedAt = clock 3 \<rparr> ],
       taskActivities =
         [ \<lparr> activity_id = ''a1'',
             taskId = ''t2'',
             message = ''Task created'',
             author = ''Jane Smith'',
             activity_createdAt = clock 4 \<rparr> ],
       published = [] \<rparr>"

text \<open>The states the process can be in: the start state, then any sequence of mutations,
  each with any arguments, any caller and any value of the id generator and the clock.\<close>

inductive reachable :: "server_state \<Rightarrow> bool" where
  start: "reachable (initial_state clock)"
| create: "reachable s \<Longrightarrow>
     reachable (snd (createTask title' description' assignee' uuid now context s))"
| update: "reachable s \<Longrightarrow>
     reachable (snd (updateTask id' title' description' status' assignee' now context s))"
| add_activity: "reachable s \<Longrightarrow>
     reachable (snd (addTaskActivity taskId' message' uuid now context s))"
| delete: "reachable s \<Longrightarrow> reachable (snd (deleteTask id' context s))"

text \<open>Every activity's \<open>taskId\<close> is the id of a task in the store.\<close>

definition activities_reference_tasks :: "server_state \<Rightarrow> bool" where
  "activities_reference_tasks s \<longleftrightarrow>
     list_all (\<lambda>a. taskId a \<in> set (map task_id (tasks s))) (taskActivities s)"

text \<open>
  The id generator. \<open>gen k\<close> is the value of the \<open>k\<close>-th call of \<open>uuidv4()\<close> the process
  makes, counted from 0, and \<open>generated gen n s\<close> says that \<open>s\<close> is a state of the process
  after exactly \<open>n\<close> such calls. \<open>createTask\<close> and \<open>addTaskActivity\<close> call
  \<open>uuidv4()\<close> once, after their checks have passed; a call that throws makes none, and
  \<open>updateTask\<close> and \<open>deleteTask\<close> never do.
\<close>

inductive generated :: "(nat \<Rightarrow> string) \<Rightarrow> nat \<Rightarrow> server_state \<Rightarrow> bool"
  for gen :: "nat \<Rightarrow> string" where
  boot: "generated gen 0 (initial_state clock)"
| created: "generated gen n s \<Longrightarrow>
     createTask title' description' assignee' (gen n) now context s = (Inr task, s') \<Longrightarrow>
     generated gen (Suc n) s'"
| create_refused: "generated gen n s \<Longrightarrow>
     createTask title' description' assignee' uuid now context s = (Inl err, s') \<Longrightarrow>
     generated gen n s'"
| updated: "generated gen n s \<Longrightarrow>
     generated gen n (snd (updateTask id' title' description' status' assignee' now context s))"
| activity_added: "generated gen n s \<Longrightarrow>
     addTaskActivity taskId' message' (gen n) now context s = (Inr activity, s') \<Longrightarrow>
     generated gen (Suc n) s'"
| activity_refused: "generated gen n s \<Longrightarrow>
     addTaskActivity taskId' message' uuid now context s = (Inl err, s') \<Longrightarrow>
     generated gen n s'"
| deleted: "generated gen n s \<Longrightarrow> generated gen n (snd (deleteTask id' context s))"

text \<open>
  The task ids are pairwise distinct, and each is a literal of the start state or a value
  the generator has handed out.
\<close>

definition ids_from_generator :: "(nat \<Rightarrow> string) \<Rightarrow> nat \<Rightarrow> server_state \<Rightarrow> bool" where
  "ids_from_generator gen n s \<longleftrightarrow>
     distinct (map task_id (tasks s))
     \<and> set (map task_id (tasks s)) \<subseteq> {''t1'', ''t2''} \<union> gen ` {..<n}"

section \<open>Concrete requests\<close>

text \<open>A start state with a fixed clock, and callers, used to instantiate the theorems
  below.\<close>

definition clock0 :: "nat \<Rightarrow> string" where
  "clock0 k = ''2025-01-01T00:00:00.000Z''"

definition state0 :: server_state where
  "state0 = initial_state clock0"

definition ctx_alice :: Context where
  "ctx_alice = \<lparr> userId = ''u-7'', userName = ''Alice'', userEmail = ''alice@example.com'',
                 userTeams = [], userRole = ''user'' \<rparr>"

definition ctx_john :: Context where
  "ctx_john = \<lparr> userId = ''u-1'', userName = ''John Doe'', userEmail = ''john@example.com'',
                userTeams = [], userRole = ''user'' \<rparr>"

definition ctx_admin :: Context where
  "ctx_admin = \<lparr> userId = ''u-0'', userName = ''Root'', userEmail = ''root@example.com'',
                 userTeams = [], userRole = ''admin'' \<rparr>"

definition task1 :: Task where
  "task1 = \<lparr> task_id = ''t1'',
             title = ''Setup project structure'',
             description = ''Inisialisasi repository, konfigurasi Docker, dan API Gateway.'',
             status = TODO,
             assignee = ''John Doe'',
             createdAt = clock0 0,
             updatedAt = clock0 1 \<rparr>"

definition task_untitled :: Task where
  "task_untitled = \<lparr> task_id = ''9b2f'', title = [], description = ''B'',
                     status = TODO, assignee = ''Alice'',
                     createdAt = ''2025-01-02T00:00:00.000Z'',
                     updatedAt = ''2025-01-02T00:00:00.000Z'' \<rparr>"

text \<open>
  Requests: header maps, and two environments. \<open>env_offline\<close> reaches no key endpoint.
  In \<open>env_online\<close> the first endpoint answers a key, and \<open>verify_test\<close> stands in for the
  library: it accepts the token \<open>rs-token\<close> when RS256 is among the algorithms allowed and
  the token \<open>hs-token\<close> when HS256 is; \<open>alg_test\<close> is the algorithm a token is signed
  with.
\<close>

definition no_headers :: headers where
  "no_headers = Map.empty"

definition headers_alice :: headers where
  "headers_alice = [''x-user-id'' \<mapsto> ''u-7'', ''x-user-name'' \<mapsto> ''Alice'']"

definition headers_bearer :: headers where
  "headers_bearer = [''authorization'' \<mapsto> ''Bearer abc'']"

definition headers_hs :: headers where
  "headers_hs = [''authorization'' \<mapsto> ''Bearer hs-token'']"

definition anonymous :: Context where
  "anonymous = \<lparr> userId = [], userName = ''Guest'', userEmail = [], userTeams = [],
                 userRole = ''user'' \<rparr>"

definition task_guest :: Task where
  "task_guest = \<lparr> task_id = ''g1'', title = ''Open item'', description = ''Anyone'',
                  status = TODO, assignee = ''Guest'',
                  createdAt = ''2025-01-01T00:00:00.000Z'',
                  updatedAt = ''2025-01-01T00:00:00.000Z'' \<rparr>"

definition state_guest :: server_state where
  "state_guest = \<lparr> tasks = [task_guest], taskActivities = [], published = [] \<rparr>"

definition payload_alice :: payload where
  "payload_alice = \<lparr> p_userId = Some ''u-7'', p_name = Some ''Alice'',
                     p_email = Some ''alice@example.com'', p_teams = None, p_role = None \<rparr>"

definition payload_mallory :: payload where
  "payload_mallory = \<lparr> p_userId = Some ''u-666'', p_name = Some ''Mallory'',
                       p_email = None, p_teams = None, p_role = Some ''admin'' \<rparr>"

definition get_none :: "string \<Rightarrow> string option" where
  "get_none endpoint = None"

definition verify_none :: "string \<Rightarrow> string \<Rightarrow> string list \<Rightarrow> error + payload" where
  "verify_none token publicKey algorithms = Inl (JsonWebTokenError ''invalid token'')"

definition env_offline :: auth_env where
  "env_offline = \<lparr> PUBLIC_KEY_ENDPOINTS = [''http://rest-api:3001/api/auth/public-key'',
                                             ''http://localhost:3001/api/auth/public-key''],
                    axios_get = get_none,
                    jwt_verify = verify_none \<rparr>"

definition get_key :: "string \<Rightarrow> string option" where
  "get_key endpoint =
     (if endpoint = ''http://rest-api:3001/api/auth/public-key'' then Some ''PUBLIC KEY''
      else None)"

definition alg_test :: "string \<Rightarrow> string" where
  "alg_test token =
     (if token = ''rs-token'' then ''RS256''
      else if token = ''hs-token'' then ''HS256'' else ''none'')"

definition verify_test :: "string \<Rightarrow> string \<Rightarrow> string list \<Rightarrow> error + payload" where
  "verify_test token publicKey algorithms =
     (if token = ''rs-token'' \<and> ''RS256'' \<in> set algorithms then Inr payload_alice
      else if token = ''hs-token'' \<and> ''HS256'' \<in> set algorithms then Inr payload_mallory
      else Inl (JsonWebTokenError ''invalid algorithm''))"

definition env_online :: auth_env where
  "env_online = \<lparr> PUBLIC_KEY_ENDPOINTS = [''http://rest-api:3001/api/auth/public-key'',
                                            ''http://localhost:3001/api/auth/public-key''],
                   axios_get = get_key,
                   jwt_verify = verify_test \<rparr>"

text \<open>
  Two values of the id generator, and the start state after one task was created with
  the first.
\<close>

definition uuid_test :: "nat \<Rightarrow> string" where
  "uuid_test n =
     (if n = 0 then ''110ec58a-a0f2-4ac4-8393-c866d813b8d1''
      else ''7c9e6679-7425-40de-944b-e07fc1f90ae7'')"

definition state1 :: server_state where
  "state1 = snd (createTask ''A'' ''B'' ''Alice'' (uuid_test 0) ''2025-01-02T00:00:00.000Z''
                   ctx_alice state0)"

section \<open>Facts about the helpers\<close>

lemma findIndex_Some_bound: "findIndex P xs = Some i \<Longrightarrow> i < length xs \<and> P (xs ! i)"
  by (induction xs arbitrary: i) (auto split: if_splits)

lemma find_findIndex: "find P xs = Some x \<Longrightarrow> \<exists>i. findIndex P xs = Some i \<and> xs ! i = x"
  by (induction xs) (auto split: if_splits)

lemma find_None_findIndex: "find P xs = None \<Longrightarrow> findIndex P xs = None"
  by (induction xs) (auto split: if_splits)

lemma getTask_Some_index:
  "getTask i s = Some task \<Longrightarrow>
     \<exists>idx. findIndex (\<lambda>t. task_id t = i) (tasks s) = Some idx \<and> tasks s ! idx = task"
  unfolding getTask_def by (rule find_findIndex)

lemma getTask_None_index:
  "getTask i s = None \<Longrightarrow> findIndex (\<lambda>t. task_id t = i) (tasks s) = None"
  unfolding getTask_def by (rule find_None_findIndex)

lemma getTask_t1: "getTask ''t1'' state0 = Some task1"
  by (simp add: getTask_def state0_def initial_state_def task1_def)

lemma find_list_update_same:
  assumes "findIndex P xs = Some idx" and "P y"
  shows "find P (xs[idx := y]) = Some y"
  using assms by (induction xs arbitrary: idx) (auto split: if_splits)

lemma find_append_new:
  assumes "\<forall>x \<in> set xs. \<not> P x" and "P y"
  shows "find P (xs @ [y]) = Some y"
  using assms by (induction xs) auto

lemma splice1_keeps:
  assumes "idx < length xs" and "x \<in> set xs" and "f x \<noteq> f (xs ! idx)"
  shows "x \<in> set (splice1 idx xs)"
  using assms unfolding splice1_def
proof (induction xs arbitrary: idx)
  case Nil
  then show ?case by simp
next
  case (Cons y ys)
  then show ?case by (cases idx) auto
qed

lemma splice1_distinct_gone:
  assumes "idx < length xs" and "distinct (map f xs)"
  shows "f (xs ! idx) \<notin> f ` set (splice1 idx xs)"
  using assms unfolding splice1_def
proof (induction xs arbitrary: idx)
  case Nil
  then show ?case by simp
next
  case (Cons y ys)
  show ?case
  proof (cases idx)
    case 0
    with Cons.prems show ?thesis by simp
  next
    case (Suc k)
    with Cons.prems have k: "k < length ys" and d: "distinct (map f ys)"
      and y: "f y \<notin> f ` set ys" by simp_all
    from k have "ys ! k \<in> set ys" by simp
    with y have "f (ys ! k) \<noteq> f y" by (metis imageI)
    with Cons.IH [OF k d] Suc show ?thesis by simp
  qed
qed

lemma splice1_length: "idx < length xs \<Longrightarrow> Suc (length (splice1 idx xs)) = length xs"
  unfolding splice1_def by simp

lemma image_task_id_update:
  assumes "idx < length xs" and "task_id y = task_id (xs ! idx)"
  shows "task_id ` set (xs[idx := y]) = task_id ` set xs"
  using assms
proof (induction xs arbitrary: idx)
  case Nil
  then show ?case by simp
next
  case (Cons z zs)
  then show ?case by (cases idx) auto
qed

lemma createTask_keeps_references:
  "activities_reference_tasks s \<Longrightarrow>
     activities_reference_tasks (snd (createTask t d a uuid now c s))"
  by (auto simp: activities_reference_tasks_def createTask_def Let_def list_all_iff)

lemma updateTask_keeps_references:
  assumes "activities_reference_tasks s"
  shows "activities_reference_tasks (snd (updateTask i t d st a now c s))"
proof (cases "findIndex (\<lambda>t. task_id t = i) (tasks s)")
  case None
  with assms show ?thesis by (simp add: updateTask_def)
next
  case (Some idx)
  then have "idx < length (tasks s)" using findIndex_Some_bound by blast
  then have "task_id ` set ((tasks s)[idx := y]) = task_id ` set (tasks s)"
    if "task_id y = task_id (tasks s ! idx)" for y
    using that by (rule image_task_id_update)
  with assms Some show ?thesis
    by (simp add: updateTask_def Let_def activities_reference_tasks_def)
qed

lemma addTaskActivity_keeps_references:
  assumes "activities_reference_tasks s"
  shows "activities_reference_tasks (snd (addTaskActivity i m uuid now c s))"
proof (cases "find (\<lambda>t. task_id t = i) (tasks s)")
  case None
  with assms show ?thesis by (simp add: addTaskActivity_def)
next
  case (Some task)
  then have "task \<in> set (tasks s)" "task_id task = i"
    by (auto simp: find_Some_iff)
  then have "i \<in> task_id ` set (tasks s)" by blast
  with assms Some show ?thesis
    by (simp add: addTaskActivity_def Let_def activities_reference_tasks_def)
qed

lemma deleteTask_keeps_references:
  assumes "activities_reference_tasks s"
  shows "activities_reference_tasks (snd (deleteTask i c s))"
proof (cases "findIndex (\<lambda>t. task_id t = i) (tasks s)")
  case None
  with assms show ?thesis by (simp add: deleteTask_def)
next
  case (Some idx)
  then have b: "idx < length (tasks s)" "task_id (tasks s ! idx) = i"
    using findIndex_Some_bound [OF Some] by simp_all
  have "taskId a \<in> task_id ` set (splice1 idx (tasks s))"
    if "a \<in> set (taskActivities s)" "taskId a \<noteq> i" for a
  proof -
    from assms that(1) obtain x where x: "x \<in> set (tasks s)" "task_id x = taskId a"
      by (auto simp: activities_reference_tasks_def list_all_iff)
    with that(2) b(2) have "task_id x \<noteq> task_id (tasks s ! idx)" by simp
    from splice1_keeps [OF b(1) x(1) this] x(2) show ?thesis by force
  qed
  with assms Some show ?thesis
    by (auto simp: deleteTask_def Let_def activities_reference_tasks_def list_all_iff)
qed

lemma reachable_references:
  "reachable s \<Longrightarrow> activities_reference_tasks s"
proof (induction rule: reachable.induct)
  case (start clock)
  show ?case by (simp add: activities_reference_tasks_def initial_state_def)
next
  case (create s title' description' assignee' uuid now "context")
  then show ?case by (simp add: createTask_keeps_references)
next
  case (update s id' title' description' status' assignee' now "context")
  then show ?case by (simp add: updateTask_keeps_references)
next
  case (add_activity s taskId' message' uuid now "context")
  then show ?case by (simp add: addTaskActivity_keeps_references)
next
  case (delete s id' "context")
  then show ?case by (simp add: deleteTask_keeps_references)
qed

lemma or_else_nonempty: "b \<noteq> [] \<Longrightarrow> or_else a b \<noteq> []"
  by (simp add: or_else_def)

lemma opt_or_else_nonempty: "b \<noteq> [] \<Longrightarrow> opt_or_else a b \<noteq> []"
  by (cases a) (simp_all add: opt_or_else_def or_else_nonempty)

lemma header_identity_userName: "userName (header_identity h) \<noteq> []"
  by (simp add: header_identity_def header_or_def opt_or_else_nonempty)

lemma apply_decoded_userName: "userName c \<noteq> [] \<Longrightarrow> userName (apply_decoded p c) \<noteq> []"
  by (simp add: apply_decoded_def opt_or_else_nonempty)

lemma make_context_cases:
  "fst (make_context env h k) = header_identity h
   \<or> (\<exists>p. fst (make_context env h k) = apply_decoded p (header_identity h))"
proof (cases "userId (header_identity h) \<noteq> []
              \<or> bearer_token (header_or h ''authorization'' []) = []")
  case True
  then show ?thesis by (auto simp: make_context_def Let_def)
next
  case False
  obtain r k' where d:
    "decodeToken env (bearer_token (header_or h ''authorization'' [])) k = (r, k')"
    by (cases "decodeToken env (bearer_token (header_or h ''authorization'' [])) k")
  show ?thesis
  proof (cases r)
    case (Inl e)
    with False d show ?thesis by (simp add: make_context_def Let_def)
  next
    case (Inr p)
    with False d have "fst (make_context env h k) = apply_decoded p (header_identity h)"
      by (simp add: make_context_def Let_def)
    then show ?thesis by blast
  qed
qed

lemma make_context_userName: "userName (fst (make_context env h k)) \<noteq> []"
  using make_context_cases [of env h k] header_identity_userName [of h]
    apply_decoded_userName [OF header_identity_userName, of _ h]
  by metis

lemma permitted_mutation_runs:
  assumes "getTask i s = Some task"
    and "userRole c = ''admin'' \<or> userName c = assignee task"
  shows "(\<exists>updated s'. updateTask i t d st a now c s = (Inr updated, s'))
       \<and> (\<exists>s'. deleteTask i c s = (Inr True, s'))"
proof -
  from assms(1) obtain idx where
    "findIndex (\<lambda>t. task_id t = i) (tasks s) = Some idx" "tasks s ! idx = task"
    using getTask_Some_index by blast
  with assms(2) show ?thesis
    by (auto simp: updateTask_def deleteTask_def Let_def)
qed

lemma updateTask_result_fields:
  assumes "getTask i s = Some task"
    and "updateTask i t d st a now c s = (Inr updated, s')"
  shows "title updated = merge_field t (title task)
       \<and> description updated = merge_field d (description task)
       \<and> status updated = merge_status st (status task)
       \<and> assignee updated = merge_field a (assignee task)"
proof -
  from assms(1) obtain idx where
    idx: "findIndex (\<lambda>t. task_id t = i) (tasks s) = Some idx" "tasks s ! idx = task"
    using getTask_Some_index by blast
  from assms(2) idx show ?thesis
    by (auto simp: updateTask_def Let_def split: if_splits)
qed

lemma merge_field_empty: "merge_field (Some []) old = merge_field None old"
  by (simp add: merge_field_def)

lemma anonymous_context:
  assumes "h ''x-user-id'' = None" and "h ''x-user-name'' = None"
    and "h ''authorization'' = None"
  shows "userId (fst (make_context env h k)) = []
       \<and> userName (fst (make_context env h k)) = ''Guest''"
  using assms
  by (simp add: make_context_def header_identity_def header_or_def opt_or_else_def
        Let_def bearer_token_def startsWith_def)

lemma fetch_endpoints_empty_iff:
  "fst (fetch_endpoints get es []) = [] \<longleftrightarrow> (\<forall>e \<in> set es. get e = None \<or> get e = Some [])"
  by (induction es) (auto split: option.splits)

lemma getAuthPublicKey_empty_iff:
  "fst (getAuthPublicKey env k) = [] \<longleftrightarrow>
     k = [] \<and> (\<forall>e \<in> set (PUBLIC_KEY_ENDPOINTS env). axios_get env e = None \<or> axios_get env e = Some [])"
  by (auto simp: getAuthPublicKey_def fetch_endpoints_empty_iff)

lemma decodeToken_fst:
  "fst (decodeToken env token k) =
     (if fst (getAuthPublicKey env k) = [] then
        Inl (KeyUnavailableError ''Public key unavailable for token verification'')
      else jwt_verify env token (fst (getAuthPublicKey env k)) [''RS256''])"
  by (cases "getAuthPublicKey env k") (simp add: decodeToken_def)

lemma make_context_with_token:
  assumes "header_or h ''x-user-id'' [] = []"
    and "bearer_token (header_or h ''authorization'' []) = token" and "token \<noteq> []"
  shows "make_context env h k =
           (case decodeToken env token k of
              (Inr decoded, k') \<Rightarrow> (apply_decoded decoded (header_identity h), k')
            | (Inl err, k') \<Rightarrow> (header_identity h, k'))"
proof -
  have "userId (header_identity h) = []" using assms(1) by (simp add: header_identity_def)
  with assms(2,3) show ?thesis by (simp add: make_context_def Let_def)
qed

lemma header_identity_anonymous:
  assumes "h ''x-user-id'' = None" and "h ''x-user-name'' = None" and "h ''x-user-email'' = None"
    and "h ''x-user-teams'' = None" and "h ''x-user-role'' = None"
  shows "header_identity h =
           \<lparr> userId = [], userName = ''Guest'', userEmail = [], userTeams = [],
             userRole = ''user'' \<rparr>"
  using assms by (simp add: header_identity_def header_or_def opt_or_else_def)

lemma map_task_id_update:
  assumes "idx < length xs" and "task_id y = task_id (xs ! idx)"
  shows "map task_id (xs[idx := y]) = map task_id xs"
  using assms
proof (induction xs arbitrary: idx)
  case Nil
  then show ?case by simp
next
  case (Cons z zs)
  then show ?case by (cases idx) auto
qed

lemma splice1_subset: "set (splice1 idx xs) \<subseteq> set xs"
  unfolding splice1_def using set_take_subset [of idx xs] set_drop_subset [of "Suc idx" xs]
  by auto

lemma splice1_distinct:
  assumes "distinct (map f xs)"
  shows "distinct (map f (splice1 idx xs))"
proof -
  have "distinct (map f (take idx xs @ drop idx xs))" using assms by simp
  then have a: "distinct (map f (take idx xs))"
    and b: "distinct (map f (drop idx xs))"
    and c: "f ` set (take idx xs) \<inter> f ` set (drop idx xs) = {}"
    by (simp_all only: map_append distinct_append set_map)
  have "drop (Suc idx) xs = drop 1 (drop idx xs)" by simp
  then have sub: "set (drop (Suc idx) xs) \<subseteq> set (drop idx xs)"
    by (metis set_drop_subset)
  have d: "distinct (map f (drop (Suc idx) xs))"
    using b by (metis \<open>drop (Suc idx) xs = drop 1 (drop idx xs)\<close> distinct_drop drop_map)
  from c sub have "f ` set (take idx xs) \<inter> f ` set (drop (Suc idx) xs) = {}" by blast
  with a d show ?thesis by (simp add: splice1_def)
qed

lemma updateTask_task_ids:
  "map task_id (tasks (snd (updateTask i t d st a now c s))) = map task_id (tasks s)"
proof (cases "findIndex (\<lambda>t. task_id t = i) (tasks s)")
  case None
  then show ?thesis by (simp add: updateTask_def)
next
  case (Some idx)
  then have "idx < length (tasks s)" using findIndex_Some_bound by blast
  then have "map task_id ((tasks s)[idx := y]) = map task_id (tasks s)"
    if "task_id y = task_id (tasks s ! idx)" for y
    using that by (rule map_task_id_update)
  with Some show ?thesis by (simp add: updateTask_def Let_def)
qed

lemma deleteTask_task_ids:
  assumes "distinct (map task_id (tasks s))"
  shows "distinct (map task_id (tasks (snd (deleteTask i c s))))
       \<and> set (tasks (snd (deleteTask i c s))) \<subseteq> set (tasks s)"
proof (cases "findIndex (\<lambda>t. task_id t = i) (tasks s)")
  case None
  with assms show ?thesis by (simp add: deleteTask_def)
next
  case (Some idx)
  with assms splice1_distinct [OF assms, of idx] splice1_subset [of idx "tasks s"]
  show ?thesis by (simp add: deleteTask_def Let_def)
qed

lemma createTask_refused_state:
  "createTask t d a uuid now c s = (Inl e, s') \<Longrightarrow> s' = s"
  by (simp add: createTask_def Let_def split: if_splits)

lemma createTask_created_tasks:
  "createTask t d a uuid now c s = (Inr task, s') \<Longrightarrow>
     tasks s' = tasks s @ [task] \<and> task_id task = uuid"
  by (auto simp: createTask_def Let_def split: if_splits)

lemma addTaskActivity_tasks:
  "addTaskActivity i m uuid now c s = (r, s') \<Longrightarrow> tasks s' = tasks s"
  by (auto simp: addTaskActivity_def Let_def split: if_splits option.splits)

lemma generator_next_unused:
  fixes gen :: "nat \<Rightarrow> string"
  assumes "inj_on gen {..n}" and "\<forall>k \<le> n. length (gen k) = 36"
  shows "gen n \<notin> {''t1'', ''t2''} \<union> gen ` {..<n}"
proof -
  have "length (gen n) = 36" using assms(2) by simp
  then have lit: "gen n \<noteq> ''t1''" "gen n \<noteq> ''t2''" by auto
  have "gen n \<noteq> gen k" if "k < n" for k
  proof
    assume "gen n = gen k"
    with assms(1) that have "n = k" by (auto simp: inj_on_def)
    with that show False by simp
  qed
  with lit show ?thesis by auto
qed

lemma generated_ids:
  assumes "generated gen n s"
  shows "inj_on gen {..<n} \<Longrightarrow> \<forall>k < n. length (gen k) = 36 \<Longrightarrow> ids_from_generator gen n s"
  using assms
proof (induction rule: generated.induct)
  case (boot clock)
  show ?case by (simp add: ids_from_generator_def initial_state_def)
next
  case (created n s title' description' assignee' now "context" task s')
  have inj: "inj_on gen {..n}" using created.prems(1) by (simp add: lessThan_Suc_atMost)
  have len: "\<forall>k \<le> n. length (gen k) = 36" using created.prems(2) by (simp add: less_Suc_eq_le)
  have "inj_on gen {..<n}" using inj by (rule inj_on_subset) auto
  moreover have "\<forall>k < n. length (gen k) = 36" using len by simp
  ultimately have ih: "ids_from_generator gen n s" by (rule created.IH)
  from createTask_created_tasks [OF created.hyps(2)]
  have t: "tasks s' = tasks s @ [task]" "task_id task = gen n" by simp_all
  from generator_next_unused [OF inj len] ih
  have "gen n \<notin> set (map task_id (tasks s))"
    unfolding ids_from_generator_def by blast
  with ih t show ?case
    unfolding ids_from_generator_def by (auto simp: lessThan_Suc)
next
  case (create_refused n s title' description' assignee' uuid now "context" err s')
  from createTask_refused_state [OF create_refused.hyps(2)] create_refused.IH
    create_refused.prems
  show ?case by simp
next
  case (updated n s id' title' description' status' assignee' now "context")
  then show ?case by (simp add: ids_from_generator_def updateTask_task_ids)
next
  case (activity_added n s taskId' message' now "context" activity s')
  have "inj_on gen {..<n}" using activity_added.prems(1) by (rule inj_on_subset) auto
  moreover have "\<forall>k < n. length (gen k) = 36" using activity_added.prems(2) by simp
  ultimately have ih: "ids_from_generator gen n s" by (rule activity_added.IH)
  from addTaskActivity_tasks [OF activity_added.hyps(2)] ih show ?case
    unfolding ids_from_generator_def by (auto simp: lessThan_Suc)
next
  case (activity_refused n s taskId' message' uuid now "context" err s')
  from addTaskActivity_tasks [OF activity_refused.hyps(2)] activity_refused.IH
    activity_refused.prems
  show ?case by (simp add: ids_from_generator_def)
next
  case (deleted n s id' "context")
  then have ih: "ids_from_generator gen n s" by simp
  then have "distinct (map task_id (tasks s))" by (simp add: ids_from_generator_def)
  from deleteTask_task_ids [OF this, of id' "context"] ih show ?case
    unfolding ids_from_generator_def by (auto simp: image_subset_iff subset_iff)
qed

section \<open>Authorization of updateTask and deleteTask\<close>

text \<open>
  Claim C1. When \<open>updateTask\<close> or \<open>deleteTask\<close> is called on an existing task by a
  caller whose role is not \<open>admin\<close> and whose \<open>userName\<close> differs from the task's assignee,
  the call fails with the forbidden error and the whole state (tasks, activities, bus) is
  what it was; a caller who is \<open>admin\<close> or whose \<open>userName\<close> is the assignee gets a
  result: the updated task, respectively \<open>true\<close>.
\<close>

theorem mutation_forbidden_unless_admin_or_assignee:
  assumes "getTask i s = Some task"
  shows "(userRole c \<noteq> ''admin'' \<and> userName c \<noteq> assignee task \<longrightarrow>
            updateTask i t d st a now c s =
              (Inl (ForbiddenError ''You are not allowed to update this task.''), s) \<and>
            deleteTask i c s =
              (Inl (ForbiddenError ''You are not allowed to delete this task.''), s))
       \<and> (userRole c = ''admin'' \<or> userName c = assignee task \<longrightarrow>
            (\<exists>updated s'. updateTask i t d st a now c s = (Inr updated, s')) \<and>
            (\<exists>s'. deleteTask i c s = (Inr True, s')))"
proof -
  from assms obtain idx where
    "findIndex (\<lambda>t. task_id t = i) (tasks s) = Some idx" "tasks s ! idx = task"
    using getTask_Some_index by blast
  then show ?thesis
    by (auto simp: updateTask_def deleteTask_def Let_def)
qed

theorem mutation_forbidden_unless_admin_or_assignee_witness:
  "getTask ''t1'' state0 = Some task1
   \<and> updateTask ''t1'' None None (Some DONE) None ''2025-01-02T00:00:00.000Z'' ctx_alice state0 =
       (Inl (ForbiddenError ''You are not allowed to update this task.''), state0)
   \<and> deleteTask ''t1'' ctx_alice state0 =
       (Inl (ForbiddenError ''You are not allowed to delete this task.''), state0)
   \<and> fst (deleteTask ''t1'' ctx_john state0) = Inr True
   \<and> fst (deleteTask ''t1'' ctx_admin state0) = Inr True"
proof -
  have h: "getTask ''t1'' state0 = Some task1" by (rule getTask_t1)
  have a: "userRole ctx_alice \<noteq> ''admin'' \<and> userName ctx_alice \<noteq> assignee task1"
    by (simp add: ctx_alice_def task1_def)
  have j: "userRole ctx_john = ''admin'' \<or> userName ctx_john = assignee task1"
    by (simp add: ctx_john_def task1_def)
  have r: "userRole ctx_admin = ''admin'' \<or> userName ctx_admin = assignee task1"
    by (simp add: ctx_admin_def)
  from mutation_forbidden_unless_admin_or_assignee [OF h, of ctx_alice] a
       mutation_forbidden_unless_admin_or_assignee [OF h, of ctx_john] j
       mutation_forbidden_unless_admin_or_assignee [OF h, of ctx_admin] r
  show ?thesis using h by fastforce
qed

section \<open>createTask and empty titles\<close>

text \<open>
  Claim C2 says that \<open>createTask\<close> with an empty title or description fails with a
  validation error and adds nothing. The resolver has no such check: for the caller
  \<open>ctx_alice\<close> the call with an empty title returns the new task and the store grows
  from two tasks to three.
\<close>

theorem createTask_empty_title_counterexample:
  "createTask [] ''B'' ''Alice'' ''9b2f'' ''2025-01-02T00:00:00.000Z'' ctx_alice state0 =
     (Inr task_untitled,
      state0\<lparr> tasks := tasks state0 @ [task_untitled],
              published := [TASK_CREATED task_untitled] \<rparr>)
   \<and> length (tasks (snd (createTask [] ''B'' ''Alice'' ''9b2f'' ''2025-01-02T00:00:00.000Z''
                            ctx_alice state0))) = 3"
  by (simp add: createTask_def Let_def or_else_def ctx_alice_def task_untitled_def state0_def
        initial_state_def)

text \<open>
  Claim C2 as amended. \<open>createTask\<close> does not look at the content of title or
  description: for a caller with a non-empty \<open>userId\<close> the call succeeds whatever they
  are, the empty string included, and appends the task with exactly that title and
  description; the only failure is the authentication error for an empty \<open>userId\<close>,
  which leaves the state as it was.
\<close>

theorem createTask_no_validation:
  "(userId c \<noteq> [] \<longrightarrow>
      (\<exists>task. createTask t d a uuid now c s =
                 (Inr task, s\<lparr> tasks := tasks s @ [task],
                               published := published s @ [TASK_CREATED task] \<rparr>)
              \<and> title task = t \<and> description task = d))
   \<and> (userId c = [] \<longrightarrow>
      createTask t d a uuid now c s =
        (Inl (AuthenticationError ''Authentication required to create a task.''), s))"
  by (simp add: createTask_def Let_def)

theorem createTask_no_validation_witness:
  "userId ctx_alice \<noteq> []
   \<and> fst (createTask [] [] ''Alice'' ''9b2f'' ''2025-01-02T00:00:00.000Z'' ctx_alice state0) \<noteq>
       Inl (AuthenticationError ''Authentication required to create a task.'')
   \<and> length (tasks (snd (createTask [] [] ''Alice'' ''9b2f'' ''2025-01-02T00:00:00.000Z''
                            ctx_alice state0))) = Suc (length (tasks state0))"
proof -
  have h: "userId ctx_alice \<noteq> []" by (simp add: ctx_alice_def)
  from createTask_no_validation
         [of ctx_alice "[]" "[]" "''Alice''" "''9b2f''" "''2025-01-02T00:00:00.000Z''" state0] h
  obtain task where
    "createTask [] [] ''Alice'' ''9b2f'' ''2025-01-02T00:00:00.000Z'' ctx_alice state0 =
       (Inr task, state0\<lparr> tasks := tasks state0 @ [task],
                          published := published state0 @ [TASK_CREATED task] \<rparr>)"
    by blast
  with h show ?thesis by simp
qed

section \<open>updateTask: partial merge\<close>

text \<open>
  Claim C3 speaks of every \<open>updateTask\<close> call on an existing id. The resolver guards
  the merge: the caller \<open>ctx_alice\<close>, neither admin nor assignee of \<open>t1\<close>, supplies
  only a status and gets the forbidden error; no task is returned and \<open>updatedAt\<close> is
  not stamped.
\<close>

theorem updateTask_forbidden_counterexample:
  "getTask ''t1'' state0 = Some task1
   \<and> updateTask ''t1'' None None (Some DONE) None ''2025-01-02T00:00:00.000Z'' ctx_alice state0 =
       (Inl (ForbiddenError ''You are not allowed to update this task.''), state0)
   \<and> updatedAt task1 \<noteq> ''2025-01-02T00:00:00.000Z''"
  by (simp add: getTask_def updateTask_def Let_def state0_def initial_state_def ctx_alice_def
        task1_def clock0_def)

text \<open>
  Claim C3 as amended. For every \<open>updateTask\<close> call on an existing id by a caller
  who is \<open>admin\<close> or whose \<open>userName\<close> is the task's assignee, the fields whose
  argument is absent keep their values, \<open>id\<close> and \<open>createdAt\<close> are kept,
  \<open>updatedAt\<close> is the time of the call, and the updated task is returned, stored under
  its id and published; the activities are untouched. If the id is unknown the call fails
  with the not-found error and the state is unchanged.
\<close>

theorem updateTask_partial_merge:
  "(getTask i s = Some task \<and> (userRole c = ''admin'' \<or> userName c = assignee task) \<longrightarrow>
      (\<exists>updated s'.
          updateTask i t d st a now c s = (Inr updated, s')
        \<and> (t = None \<longrightarrow> title updated = title task)
        \<and> (d = None \<longrightarrow> description updated = description task)
        \<and> (st = None \<longrightarrow> status updated = status task)
        \<and> (a = None \<longrightarrow> assignee updated = assignee task)
        \<and> task_id updated = task_id task
        \<and> createdAt updated = createdAt task
        \<and> updatedAt updated = now
        \<and> getTask i s' = Some updated
        \<and> length (tasks s') = length (tasks s)
        \<and> taskActivities s' = taskActivities s
        \<and> published s' = published s @ [TASK_UPDATED updated]))
   \<and> (getTask i s = None \<longrightarrow>
        updateTask i t d st a now c s = (Inl (NotFoundError ''Task not found''), s))"
proof (intro conjI impI)
  assume "getTask i s = None"
  then show "updateTask i t d st a now c s = (Inl (NotFoundError ''Task not found''), s)"
    using getTask_None_index by (simp add: updateTask_def)
next
  assume h: "getTask i s = Some task \<and> (userRole c = ''admin'' \<or> userName c = assignee task)"
  then obtain idx where
    idx: "findIndex (\<lambda>t. task_id t = i) (tasks s) = Some idx" "tasks s ! idx = task"
    using getTask_Some_index by blast
  have tid: "task_id task = i" using findIndex_Some_bound [OF idx(1)] idx(2) by simp
  define updated where
    "updated = task\<lparr> title := merge_field t (title task),
                     description := merge_field d (description task),
                     status := merge_status st (status task),
                     assignee := merge_field a (assignee task),
                     updatedAt := now \<rparr>"
  define s' where
    "s' = s\<lparr> tasks := (tasks s)[idx := updated],
             published := published s @ [TASK_UPDATED updated] \<rparr>"
  have run: "updateTask i t d st a now c s = (Inr updated, s')"
    using h idx by (auto simp: updateTask_def Let_def updated_def s'_def)
  have stored: "getTask i s' = Some updated"
    unfolding getTask_def s'_def using find_list_update_same [OF idx(1), of updated] tid
    by (simp add: updated_def)
  show "\<exists>updated s'.
          updateTask i t d st a now c s = (Inr updated, s')
        \<and> (t = None \<longrightarrow> title updated = title task)
        \<and> (d = None \<longrightarrow> description updated = description task)
        \<and> (st = None \<longrightarrow> status updated = status task)
        \<and> (a = None \<longrightarrow> assignee updated = assignee task)
        \<and> task_id updated = task_id task
        \<and> createdAt updated = createdAt task
        \<and> updatedAt updated = now
        \<and> getTask i s' = Some updated
        \<and> length (tasks s') = length (tasks s)
        \<and> taskActivities s' = taskActivities s
        \<and> published s' = published s @ [TASK_UPDATED updated]"
    apply (rule exI [of _ updated], rule exI [of _ s'])
    using run stored
    by (simp add: updated_def s'_def merge_field_def merge_status_def)
qed

theorem updateTask_partial_merge_witness:
  "getTask ''t1'' state0 = Some task1
   \<and> userName ctx_john = assignee task1
   \<and> fst (updateTask ''t1'' None None (Some IN_PROGRESS) None ''2025-01-02T00:00:00.000Z''
            ctx_john state0) =
       Inr (task1\<lparr> status := IN_PROGRESS, updatedAt := ''2025-01-02T00:00:00.000Z'' \<rparr>)
   \<and> getTask ''t9'' state0 = None
   \<and> updateTask ''t9'' None None (Some IN_PROGRESS) None ''2025-01-02T00:00:00.000Z''
        ctx_john state0 = (Inl (NotFoundError ''Task not found''), state0)"
proof -
  let ?now = "''2025-01-02T00:00:00.000Z''"
  have h: "getTask ''t1'' state0 = Some task1" by (rule getTask_t1)
  have j: "userName ctx_john = assignee task1" by (simp add: ctx_john_def task1_def)
  have n: "getTask ''t9'' state0 = None"
    by (simp add: getTask_def state0_def initial_state_def)
  from updateTask_partial_merge
         [of "''t1''" state0 task1 ctx_john None None "Some IN_PROGRESS" None ?now] h j
  obtain updated s' where u:
    "updateTask ''t1'' None None (Some IN_PROGRESS) None ?now ctx_john state0 = (Inr updated, s')"
    "title updated = title task1" "description updated = description task1"
    "assignee updated = assignee task1" "task_id updated = task_id task1"
    "createdAt updated = createdAt task1" "updatedAt updated = ?now"
    by blast
  have st: "status updated = IN_PROGRESS"
    using u(1) h by (auto simp: updateTask_def Let_def merge_status_def getTask_def
        dest!: find_findIndex split: option.splits if_splits)
  have eq: "updated = task1\<lparr> status := IN_PROGRESS, updatedAt := ?now \<rparr>"
    using u(2-7) st by simp
  from updateTask_partial_merge
         [of "''t9''" state0 task1 ctx_john None None "Some IN_PROGRESS" None ?now] n
  have nf: "updateTask ''t9'' None None (Some IN_PROGRESS) None ?now ctx_john state0 =
              (Inl (NotFoundError ''Task not found''), state0)"
    by blast
  show ?thesis using h j n nf u(1) eq by simp
qed

section \<open>deleteTask on an unknown id\<close>

text \<open>
  Claim C4. \<open>deleteTask\<close> with an id no task carries returns \<open>false\<close> for every
  caller (the guard on role and name is not reached), throws nothing, and returns the
  state as it was: same tasks, same activities, nothing published.
\<close>

theorem deleteTask_unknown_id:
  assumes "getTask i s = None"
  shows "deleteTask i c s = (Inr False, s)"
  using getTask_None_index [OF assms] by (simp add: deleteTask_def)

theorem deleteTask_unknown_id_witness:
  "getTask ''t9'' state0 = None
   \<and> deleteTask ''t9'' ctx_alice state0 = (Inr False, state0)
   \<and> published (snd (deleteTask ''t9'' ctx_alice state0)) = []"
proof -
  have h: "getTask ''t9'' state0 = None"
    by (simp add: getTask_def state0_def initial_state_def)
  have p: "published state0 = []" by (simp add: state0_def initial_state_def)
  from deleteTask_unknown_id [OF h, of ctx_alice] h p show ?thesis by simp
qed

section \<open>deleteTask removes the task with its activities\<close>

text \<open>
  Claim C5. In every state the process can reach, a \<open>deleteTask\<close> call that returns
  \<open>true\<close> removes, in this one step, the task found under the id and every activity whose
  \<open>taskId\<close> is the id: listing the activities of the id gives the empty list, every
  activity that remains references a task that is still in the store, the task list is one
  shorter, and when ids are unique no task with the id is left. One deletion event is
  published.
\<close>

theorem deleteTask_removes_task_and_activities:
  assumes "reachable s" and "deleteTask i c s = (Inr True, s')"
  shows "activities i s' = []
       \<and> taskActivities s' = filter (\<lambda>a. taskId a \<noteq> i) (taskActivities s)
       \<and> activities_reference_tasks s'
       \<and> (\<exists>idx. findIndex (\<lambda>t. task_id t = i) (tasks s) = Some idx
                \<and> tasks s' = splice1 idx (tasks s))
       \<and> Suc (length (tasks s')) = length (tasks s)
       \<and> (distinct (map task_id (tasks s)) \<longrightarrow> getTask i s' = None)
       \<and> published s' = published s @ [TASK_DELETED i]"
proof -
  from assms(2) obtain idx where
    idx: "findIndex (\<lambda>t. task_id t = i) (tasks s) = Some idx"
    by (cases "findIndex (\<lambda>t. task_id t = i) (tasks s)") (auto simp: deleteTask_def)
  then have b: "idx < length (tasks s)" "task_id (tasks s ! idx) = i"
    using findIndex_Some_bound [OF idx] by simp_all
  from assms(2) idx have s': 
    "s' = s\<lparr> tasks := splice1 idx (tasks s),
             taskActivities := filter (\<lambda>a. taskId a \<noteq> i) (taskActivities s),
             published := published s @ [TASK_DELETED i] \<rparr>"
    by (auto simp: deleteTask_def Let_def split: if_splits)
  have inv: "activities_reference_tasks s'"
    using deleteTask_keeps_references [OF reachable_references [OF assms(1)], of i c] assms(2)
    by simp
  have gone: "getTask i s' = None" if "distinct (map task_id (tasks s))"
  proof -
    have "i \<notin> task_id ` set (splice1 idx (tasks s))"
      using splice1_distinct_gone [OF b(1) that] b(2) by simp
    then have "\<forall>x \<in> set (splice1 idx (tasks s)). task_id x \<noteq> i" by blast
    then show ?thesis by (simp add: getTask_def s' find_None_iff)
  qed
  have none: "activities i s' = []"
    by (simp add: activities_def s' filter_empty_conv)
  have ex: "\<exists>idx. findIndex (\<lambda>t. task_id t = i) (tasks s) = Some idx
                \<and> tasks s' = splice1 idx (tasks s)"
    using idx by (simp add: s')
  have len: "Suc (length (tasks s')) = length (tasks s)"
    using splice1_length [OF b(1)] by (simp add: s')
  have acts: "taskActivities s' = filter (\<lambda>a. taskId a \<noteq> i) (taskActivities s)"
    by (simp add: s')
  have pub: "published s' = published s @ [TASK_DELETED i]"
    by (simp add: s')
  from none acts inv ex len gone pub show ?thesis by blast
qed

theorem deleteTask_removes_task_and_activities_witness:
  "reachable state0
   \<and> length (activities ''t2'' state0) = 1
   \<and> fst (deleteTask ''t2'' ctx_admin state0) = Inr True
   \<and> activities ''t2'' (snd (deleteTask ''t2'' ctx_admin state0)) = []
   \<and> getTask ''t2'' (snd (deleteTask ''t2'' ctx_admin state0)) = None
   \<and> length (tasks (snd (deleteTask ''t2'' ctx_admin state0))) = 1"
proof -
  let ?s' = "snd (deleteTask ''t2'' ctx_admin state0)"
  have r: "reachable state0" unfolding state0_def by (rule reachable.start)
  have b: "length (activities ''t2'' state0) = 1"
    by (simp add: activities_def state0_def initial_state_def)
  have f: "fst (deleteTask ''t2'' ctx_admin state0) = Inr True"
    by (simp add: deleteTask_def Let_def state0_def initial_state_def ctx_admin_def)
  then have d: "deleteTask ''t2'' ctx_admin state0 = (Inr True, ?s')"
    by (simp add: prod_eq_iff)
  have dist: "distinct (map task_id (tasks state0))"
    by (simp add: state0_def initial_state_def)
  have len: "length (tasks state0) = 2"
    by (simp add: state0_def initial_state_def)
  from deleteTask_removes_task_and_activities [OF r d] dist len
  have "activities ''t2'' ?s' = []" "getTask ''t2'' ?s' = None" "length (tasks ?s') = 1"
    by simp_all
  with r b f show ?thesis by simp
qed

section \<open>createTask: the task created\<close>

text \<open>
  Claim C6. \<open>uuidv4\<close> is the library's; what it promises is the hypothesis: the values it
  has handed out, the one of this call included, are pairwise distinct strings of 36
  characters. Then in every state the process can be in, \<open>createTask\<close> by a caller with a
  non-empty \<open>userId\<close> returns a task with status \<open>TODO\<close>, \<open>createdAt\<close> and
  \<open>updatedAt\<close> both the time of the call, and an id that is fresh: it is the generator's
  value, no task in the store carries it, the ids of the store stay pairwise distinct, and
  looking the id up gives the new task. The assignee is the argument, or the caller's
  \<open>userName\<close> when the argument is empty (the schema makes the argument mandatory, so it
  is not supplied when it is the empty string); the context the server builds always has
  a non-empty \<open>userName\<close>. A caller with an empty \<open>userId\<close> gets the authentication
  error and the state is unchanged.
\<close>

theorem createTask_result:
  fixes gen :: "nat \<Rightarrow> string"
  assumes "generated gen n s" and "inj_on gen {..n}" and "\<forall>k \<le> n. length (gen k) = 36"
  shows "(userId c \<noteq> [] \<longrightarrow>
      (\<exists>task s'.
          createTask t d a (gen n) now c s = (Inr task, s')
        \<and> title task = t \<and> description task = d
        \<and> status task = TODO
        \<and> createdAt task = now \<and> updatedAt task = now
        \<and> task_id task = gen n
        \<and> task_id task \<notin> set (map task_id (tasks s))
        \<and> distinct (map task_id (tasks s'))
        \<and> getTask (task_id task) s' = Some task
        \<and> (a \<noteq> [] \<longrightarrow> assignee task = a)
        \<and> (a = [] \<and> userName c \<noteq> [] \<longrightarrow> assignee task = userName c)
        \<and> tasks s' = tasks s @ [task]
        \<and> taskActivities s' = taskActivities s
        \<and> published s' = published s @ [TASK_CREATED task]
        \<and> generated gen (Suc n) s'))
   \<and> (userId c = [] \<longrightarrow>
        createTask t d a uuid now c s =
          (Inl (AuthenticationError ''Authentication required to create a task.''), s))
   \<and> userName (fst (make_context env h k)) \<noteq> []"
proof (intro conjI impI)
  show "userName (fst (make_context env h k)) \<noteq> []" by (rule make_context_userName)
next
  assume "userId c = []"
  then show "createTask t d a uuid now c s =
          (Inl (AuthenticationError ''Authentication required to create a task.''), s)"
    by (simp add: createTask_def)
next
  assume auth: "userId c \<noteq> []"
  define task where
    "task = \<lparr> task_id = gen n, title = t, description = d, status = TODO,
              assignee = or_else a (or_else (userName c) ''Unassigned''),
              createdAt = now, updatedAt = now \<rparr>"
  define s' where
    "s' = s\<lparr> tasks := tasks s @ [task], published := published s @ [TASK_CREATED task] \<rparr>"
  have run: "createTask t d a (gen n) now c s = (Inr task, s')"
    using auth by (simp add: createTask_def Let_def task_def s'_def)
  have "inj_on gen {..<n}" using assms(2) by (rule inj_on_subset) auto
  moreover have "\<forall>k < n. length (gen k) = 36" using assms(3) by simp
  ultimately have inv: "ids_from_generator gen n s" by (rule generated_ids [OF assms(1)])
  have unused: "gen n \<notin> set (map task_id (tasks s))"
    using generator_next_unused [OF assms(2,3)] inv unfolding ids_from_generator_def by blast
  then have fresh: "task_id task \<notin> set (map task_id (tasks s))" by (simp add: task_def)
  have dist: "distinct (map task_id (tasks s'))"
    using inv unused by (simp add: ids_from_generator_def s'_def task_def)
  have "\<forall>x \<in> set (tasks s). \<not> task_id x = gen n" using unused by (metis imageI set_map)
  from find_append_new [OF this, of task]
  have stored: "getTask (task_id task) s' = Some task"
    by (simp add: getTask_def s'_def task_def)
  have next_state: "generated gen (Suc n) s'"
    using assms(1) run by (rule generated.created)
  show "\<exists>task s'.
          createTask t d a (gen n) now c s = (Inr task, s')
        \<and> title task = t \<and> description task = d
        \<and> status task = TODO
        \<and> createdAt task = now \<and> updatedAt task = now
        \<and> task_id task = gen n
        \<and> task_id task \<notin> set (map task_id (tasks s))
        \<and> distinct (map task_id (tasks s'))
        \<and> getTask (task_id task) s' = Some task
        \<and> (a \<noteq> [] \<longrightarrow> assignee task = a)
        \<and> (a = [] \<and> userName c \<noteq> [] \<longrightarrow> assignee task = userName c)
        \<and> tasks s' = tasks s @ [task]
        \<and> taskActivities s' = taskActivities s
        \<and> published s' = published s @ [TASK_CREATED task]
        \<and> generated gen (Suc n) s'"
  proof (intro exI conjI)
    show "createTask t d a (gen n) now c s = (Inr task, s')" by (rule run)
    show "task_id task \<notin> set (map task_id (tasks s))" by (rule fresh)
    show "distinct (map task_id (tasks s'))" by (rule dist)
    show "getTask (task_id task) s' = Some task" by (rule stored)
    show "generated gen (Suc n) s'" by (rule next_state)
  qed (simp_all add: task_def s'_def or_else_def)
qed

theorem createTask_result_witness:
  "generated uuid_test 1 state1
   \<and> inj_on uuid_test {..1}
   \<and> length (uuid_test 0) = 36 \<and> length (uuid_test 1) = 36
   \<and> map task_id (tasks state1) = [''t1'', ''t2'', ''110ec58a-a0f2-4ac4-8393-c866d813b8d1'']
   \<and> fst (make_context env_offline headers_alice []) =
       \<lparr> userId = ''u-7'', userName = ''Alice'', userEmail = [], userTeams = [],
         userRole = ''user'' \<rparr>
   \<and> fst (createTask ''A'' ''B'' [] (uuid_test 1) ''2025-01-03T00:00:00.000Z''
            (fst (make_context env_offline headers_alice [])) state1) =
       Inr \<lparr> task_id = ''7c9e6679-7425-40de-944b-e07fc1f90ae7'', title = ''A'',
             description = ''B'', status = TODO, assignee = ''Alice'',
             createdAt = ''2025-01-03T00:00:00.000Z'',
             updatedAt = ''2025-01-03T00:00:00.000Z'' \<rparr>
   \<and> distinct (map task_id (tasks (snd (createTask ''A'' ''B'' [] (uuid_test 1)
         ''2025-01-03T00:00:00.000Z'' (fst (make_context env_offline headers_alice [])) state1))))
   \<and> createTask ''A'' ''B'' [] (uuid_test 1) ''2025-01-03T00:00:00.000Z''
            (fst (make_context env_offline no_headers [])) state1 =
       (Inl (AuthenticationError ''Authentication required to create a task.''), state1)"
proof -
  let ?c = "fst (make_context env_offline headers_alice [])"
  let ?g = "fst (make_context env_offline no_headers [])"
  let ?now = "''2025-01-03T00:00:00.000Z''"
  have b: "generated uuid_test 0 state0" unfolding state0_def by (rule generated.boot)
  have c0: "createTask ''A'' ''B'' ''Alice'' (uuid_test 0) ''2025-01-02T00:00:00.000Z''
              ctx_alice state0 =
            (Inr \<lparr> task_id = uuid_test 0, title = ''A'', description = ''B'', status = TODO,
                   assignee = ''Alice'', createdAt = ''2025-01-02T00:00:00.000Z'',
                   updatedAt = ''2025-01-02T00:00:00.000Z'' \<rparr>, state1)"
    by (simp add: state1_def createTask_def Let_def ctx_alice_def or_else_def)
  have gen1: "generated uuid_test 1 state1" using generated.created [OF b c0] by simp
  have inj: "inj_on uuid_test {..1}"
    by (auto simp: inj_on_def uuid_test_def split: if_splits)
  have len: "\<forall>k \<le> 1. length (uuid_test k) = 36" by (simp add: uuid_test_def)
  have ids: "map task_id (tasks state1) = [''t1'', ''t2'', ''110ec58a-a0f2-4ac4-8393-c866d813b8d1'']"
    by (simp add: state1_def createTask_def Let_def ctx_alice_def state0_def initial_state_def
          uuid_test_def)
  have c: "?c = \<lparr> userId = ''u-7'', userName = ''Alice'', userEmail = [], userTeams = [],
                   userRole = ''user'' \<rparr>"
    by (simp add: make_context_def header_identity_def header_or_def opt_or_else_def
          or_else_def headers_alice_def Let_def)
  have g: "userId ?g = []"
    by (simp add: make_context_def header_identity_def header_or_def opt_or_else_def
          or_else_def no_headers_def Let_def bearer_token_def startsWith_def)
  have auth: "userId ?c \<noteq> []" and name: "userName ?c = ''Alice''" by (simp_all add: c)
  have u1: "uuid_test 1 = ''7c9e6679-7425-40de-944b-e07fc1f90ae7''" by (simp add: uuid_test_def)
  from createTask_result
         [OF gen1 inj len, where c = ?c and t = "''A''" and d = "''B''" and a = "[]"
            and now = ?now and env = env_offline and h = headers_alice and k = "[]"]
       auth name
  obtain task s' where t:
    "createTask ''A'' ''B'' [] (uuid_test 1) ?now ?c state1 = (Inr task, s')"
    "title task = ''A''" "description task = ''B''" "status task = TODO"
    "createdAt task = ?now" "updatedAt task = ?now" "task_id task = uuid_test 1"
    "assignee task = ''Alice''" "distinct (map task_id (tasks s'))"
    by auto
  have eq: "task = \<lparr> task_id = ''7c9e6679-7425-40de-944b-e07fc1f90ae7'', title = ''A'',
             description = ''B'', status = TODO, assignee = ''Alice'',
             createdAt = ?now, updatedAt = ?now \<rparr>"
    using t(2-8) u1 by simp
  from createTask_result
         [OF gen1 inj len, where c = ?g and t = "''A''" and d = "''B''" and a = "[]"
            and now = ?now and uuid = "uuid_test 1" and env = env_offline and h = no_headers
            and k = "[]"] g
  have e: "createTask ''A'' ''B'' [] (uuid_test 1) ?now ?g state1 =
       (Inl (AuthenticationError ''Authentication required to create a task.''), state1)"
    by blast
  have l0: "length (uuid_test 0) = 36" and l1: "length (uuid_test 1) = 36"
    by (simp_all add: uuid_test_def)
  show ?thesis using gen1 inj l0 l1 ids c t(1,9) eq e by simp
qed

section \<open>A bearer token that fails verification\<close>

text \<open>
  Claim C7 says that a request with a bearer credential and no forwarded identity either
  gets the identity of the token's payload or fails. The request
  \<open>authorization: Bearer abc\<close> is a counterexample twice: with no key endpoint reachable
  \<open>decodeToken\<close> throws the key-unavailable error, with a key the library rejects the
  token; in both cases the \<open>catch\<close> of the context function swallows the error and the
  request goes on as the anonymous caller.
\<close>

theorem context_swallows_verification_failure_counterexample:
  "headers_bearer ''x-user-id'' = None
   \<and> bearer_token (header_or headers_bearer ''authorization'' []) = ''abc''
   \<and> decodeToken env_offline ''abc'' [] =
       (Inl (KeyUnavailableError ''Public key unavailable for token verification''), [])
   \<and> decodeToken env_online ''abc'' [] =
       (Inl (JsonWebTokenError ''invalid algorithm''), ''PUBLIC KEY'')
   \<and> make_context env_offline headers_bearer [] = (anonymous, [])
   \<and> make_context env_online headers_bearer [] = (anonymous, ''PUBLIC KEY'')"
  by (simp add: headers_bearer_def bearer_token_def startsWith_def header_or_def
        opt_or_else_def or_else_def decodeToken_def getAuthPublicKey_def env_offline_def
        env_online_def get_none_def get_key_def verify_test_def make_context_def Let_def
        header_identity_def anonymous_def)

text \<open>
  Claim C7 as amended. For every request with no \<open>x-user-id\<close> header and a non-empty
  bearer token, \<open>decodeToken\<close> either returns the payload, and the caller identity is the
  payload laid over the header defaults, or fails: with the key-unavailable error (always
  so when the cache is empty and no endpoint answers content), otherwise with what
  \<open>jwt.verify\<close> throws. The failure does not fail the request: the context function
  returns the identity read from the headers, which without identity headers is the
  anonymous one (empty \<open>userId\<close>, \<open>Guest\<close>, role \<open>user\<close>).
\<close>

theorem context_falls_back_on_failed_verification:
  assumes "header_or h ''x-user-id'' [] = []"
    and "bearer_token (header_or h ''authorization'' []) = token"
    and "token \<noteq> []"
  shows "(\<forall>e k'. decodeToken env token k = (Inl e, k') \<longrightarrow>
            make_context env h k = (header_identity h, k'))
       \<and> (\<forall>p k'. decodeToken env token k = (Inr p, k') \<longrightarrow>
            make_context env h k = (apply_decoded p (header_identity h), k'))
       \<and> (fst (decodeToken env token k) =
            Inl (KeyUnavailableError ''Public key unavailable for token verification'')
          \<or> fst (decodeToken env token k) =
               jwt_verify env token (fst (getAuthPublicKey env k)) [''RS256''])
       \<and> (k = [] \<and> (\<forall>e \<in> set (PUBLIC_KEY_ENDPOINTS env).
                        axios_get env e = None \<or> axios_get env e = Some []) \<longrightarrow>
            fst (decodeToken env token k) =
              Inl (KeyUnavailableError ''Public key unavailable for token verification''))
       \<and> (h ''x-user-id'' = None \<and> h ''x-user-name'' = None \<and> h ''x-user-email'' = None
          \<and> h ''x-user-teams'' = None \<and> h ''x-user-role'' = None \<longrightarrow>
            header_identity h =
              \<lparr> userId = [], userName = ''Guest'', userEmail = [], userTeams = [],
                userRole = ''user'' \<rparr>)"
proof (intro conjI allI impI)
  fix e k'
  assume "decodeToken env token k = (Inl e, k')"
  then show "make_context env h k = (header_identity h, k')"
    by (simp add: make_context_with_token [OF assms])
next
  fix p k'
  assume "decodeToken env token k = (Inr p, k')"
  then show "make_context env h k = (apply_decoded p (header_identity h), k')"
    by (simp add: make_context_with_token [OF assms])
next
  show "fst (decodeToken env token k) =
            Inl (KeyUnavailableError ''Public key unavailable for token verification'')
          \<or> fst (decodeToken env token k) =
               jwt_verify env token (fst (getAuthPublicKey env k)) [''RS256'']"
    by (simp add: decodeToken_fst)
next
  assume "k = [] \<and> (\<forall>e \<in> set (PUBLIC_KEY_ENDPOINTS env).
                        axios_get env e = None \<or> axios_get env e = Some [])"
  then have "fst (getAuthPublicKey env k) = []"
    using getAuthPublicKey_empty_iff by blast
  then show "fst (decodeToken env token k) =
              Inl (KeyUnavailableError ''Public key unavailable for token verification'')"
    by (simp add: decodeToken_fst)
next
  assume "h ''x-user-id'' = None \<and> h ''x-user-name'' = None \<and> h ''x-user-email'' = None
          \<and> h ''x-user-teams'' = None \<and> h ''x-user-role'' = None"
  then show "header_identity h =
              \<lparr> userId = [], userName = ''Guest'', userEmail = [], userTeams = [],
                userRole = ''user'' \<rparr>"
    using header_identity_anonymous by blast
qed

theorem context_falls_back_on_failed_verification_witness:
  "header_or headers_bearer ''x-user-id'' [] = []
   \<and> bearer_token (header_or headers_bearer ''authorization'' []) = ''abc''
   \<and> ''abc'' \<noteq> []
   \<and> fst (decodeToken env_offline ''abc'' []) =
       Inl (KeyUnavailableError ''Public key unavailable for token verification'')
   \<and> fst (make_context env_offline headers_bearer []) = header_identity headers_bearer
   \<and> header_identity headers_bearer = anonymous"
proof -
  have a: "header_or headers_bearer ''x-user-id'' [] = []"
    by (simp add: header_or_def opt_or_else_def headers_bearer_def)
  have b: "bearer_token (header_or headers_bearer ''authorization'' []) = ''abc''"
    by (simp add: header_or_def opt_or_else_def or_else_def headers_bearer_def
          bearer_token_def startsWith_def)
  have c: "''abc'' \<noteq> []" by simp
  have off: "\<forall>e \<in> set (PUBLIC_KEY_ENDPOINTS env_offline).
               axios_get env_offline e = None \<or> axios_get env_offline e = Some []"
    by (simp add: env_offline_def get_none_def)
  have hs: "headers_bearer ''x-user-id'' = None \<and> headers_bearer ''x-user-name'' = None
          \<and> headers_bearer ''x-user-email'' = None \<and> headers_bearer ''x-user-teams'' = None
          \<and> headers_bearer ''x-user-role'' = None"
    by (simp add: headers_bearer_def)
  note th = context_falls_back_on_failed_verification [OF a b c, of env_offline "[]"]
  from th off have d: "fst (decodeToken env_offline ''abc'' []) =
       Inl (KeyUnavailableError ''Public key unavailable for token verification'')"
    by blast
  then obtain k' where "decodeToken env_offline ''abc'' [] =
       (Inl (KeyUnavailableError ''Public key unavailable for token verification''), k')"
    by (cases "decodeToken env_offline ''abc'' []") simp
  with th have m: "fst (make_context env_offline headers_bearer []) = header_identity headers_bearer"
    by (metis fst_conv)
  from th hs have i: "header_identity headers_bearer = anonymous"
    unfolding anonymous_def by blast
  show ?thesis using a b c d m i by simp
qed

section \<open>Only RS256 tokens are accepted\<close>

text \<open>
  Claim C8. \<open>jwt.verify\<close> is the library's; what it promises for its
  \<open>algorithms\<close> option is taken as the hypothesis: it returns a payload only for a token
  whose algorithm \<open>alg token\<close> is in the list it is given. Then \<open>decodeToken\<close>, which
  passes the list \<open>['RS256']\<close>, rejects every token signed with another algorithm, a
  payload comes only from an RS256 token, and a request whose bearer token is signed
  otherwise keeps the identity of its headers.
\<close>

theorem decodeToken_accepts_only_RS256:
  assumes "\<forall>token publicKey algorithms p.
             jwt_verify env token publicKey algorithms = Inr p \<longrightarrow> alg token \<in> set algorithms"
  shows "(alg token \<noteq> ''RS256'' \<longrightarrow> (\<exists>e. fst (decodeToken env token k) = Inl e))
       \<and> (\<forall>p. fst (decodeToken env token k) = Inr p \<longrightarrow> alg token = ''RS256'')
       \<and> (alg (bearer_token (header_or h ''authorization'' [])) \<noteq> ''RS256'' \<longrightarrow>
            fst (make_context env h k) = header_identity h)"
proof -
  have only: "alg tok = ''RS256''" if "fst (decodeToken env tok k) = Inr p" for tok p
  proof -
    from that have "jwt_verify env tok (fst (getAuthPublicKey env k)) [''RS256''] = Inr p"
      by (simp add: decodeToken_fst split: if_splits)
    with assms have "alg tok \<in> set [''RS256'']" by blast
    then show ?thesis by simp
  qed
  have rej: "\<exists>e. fst (decodeToken env tok k) = Inl e" if "alg tok \<noteq> ''RS256''" for tok
  proof (cases "fst (decodeToken env tok k)")
    case (Inl e)
    then show ?thesis by blast
  next
    case (Inr p)
    with only that show ?thesis by blast
  qed
  have ctx: "fst (make_context env h k) = header_identity h"
    if bad: "alg (bearer_token (header_or h ''authorization'' [])) \<noteq> ''RS256''"
  proof (cases "userId (header_identity h) \<noteq> []
                \<or> bearer_token (header_or h ''authorization'' []) = []")
    case True
    then show ?thesis by (auto simp: make_context_def Let_def)
  next
    case False
    let ?tok = "bearer_token (header_or h ''authorization'' [])"
    from rej [OF bad] obtain e where "fst (decodeToken env ?tok k) = Inl e" by blast
    then obtain k' where "decodeToken env ?tok k = (Inl e, k')"
      by (cases "decodeToken env ?tok k") simp
    with False show ?thesis by (simp add: make_context_def Let_def)
  qed
  from only rej ctx show ?thesis by blast
qed

theorem decodeToken_accepts_only_RS256_witness:
  "alg_test ''hs-token'' \<noteq> ''RS256''
   \<and> verify_test ''hs-token'' ''PUBLIC KEY'' [''RS256'', ''HS256''] = Inr payload_mallory
   \<and> fst (decodeToken env_online ''hs-token'' []) = Inl (JsonWebTokenError ''invalid algorithm'')
   \<and> fst (make_context env_online headers_hs []) = header_identity headers_hs
   \<and> userId (fst (make_context env_online headers_hs [])) = []
   \<and> fst (decodeToken env_online ''rs-token'' []) = Inr payload_alice
   \<and> alg_test ''rs-token'' = ''RS256''"
proof -
  have contract: "\<forall>token publicKey algorithms p.
      jwt_verify env_online token publicKey algorithms = Inr p \<longrightarrow>
      alg_test token \<in> set algorithms"
    by (auto simp: env_online_def verify_test_def alg_test_def split: if_splits)
  note th = decodeToken_accepts_only_RS256 [of env_online alg_test, OF contract]
  have a: "alg_test ''hs-token'' \<noteq> ''RS256''" by (simp add: alg_test_def)
  have v: "verify_test ''hs-token'' ''PUBLIC KEY'' [''RS256'', ''HS256''] = Inr payload_mallory"
    by (simp add: verify_test_def)
  have tok: "bearer_token (header_or headers_hs ''authorization'' []) = ''hs-token''"
    by (simp add: header_or_def opt_or_else_def or_else_def headers_hs_def
          bearer_token_def startsWith_def)
  from th [where token = "''hs-token''" and k = "[]" and h = headers_hs] a tok
  have m: "fst (make_context env_online headers_hs []) = header_identity headers_hs" by simp
  have u: "userId (header_identity headers_hs) = []"
    by (simp add: header_identity_def header_or_def opt_or_else_def headers_hs_def)
  have d: "fst (decodeToken env_online ''hs-token'' []) = Inl (JsonWebTokenError ''invalid algorithm'')"
    by (simp add: decodeToken_def getAuthPublicKey_def env_online_def get_key_def
          verify_test_def)
  have r: "fst (decodeToken env_online ''rs-token'' []) = Inr payload_alice"
    by (simp add: decodeToken_def getAuthPublicKey_def env_online_def get_key_def
          verify_test_def)
  from th [where token = "''rs-token''" and k = "[]" and h = headers_hs] r have ra: "alg_test ''rs-token'' = ''RS256''"
    by blast
  show ?thesis using a v d m u r ra by simp
qed

section \<open>updateTask and deleteTask without authentication\<close>

text \<open>
  Claim C9. \<open>updateTask\<close> and \<open>deleteTask\<close> never read \<open>userId\<close>: changing it
  changes nothing. A caller with an empty \<open>userId\<close> whose role is \<open>admin\<close> or whose
  \<open>userName\<close> is the assignee is let through. A request with no \<open>x-user-id\<close>, no
  \<open>x-user-name\<close> and no \<open>authorization\<close> header gets the empty \<open>userId\<close> and the
  name \<open>Guest\<close>, so it can update and delete any task assigned to \<open>Guest\<close>.
\<close>

theorem mutations_never_consult_userId:
  "updateTask i t d st a now (c\<lparr>userId := u\<rparr>) s = updateTask i t d st a now c s
   \<and> deleteTask i (c\<lparr>userId := u\<rparr>) s = deleteTask i c s
   \<and> (getTask i s = Some task \<and> userId c = []
        \<and> (userRole c = ''admin'' \<or> userName c = assignee task) \<longrightarrow>
          (\<exists>updated s'. updateTask i t d st a now c s = (Inr updated, s'))
        \<and> (\<exists>s'. deleteTask i c s = (Inr True, s')))
   \<and> (h ''x-user-id'' = None \<and> h ''x-user-name'' = None \<and> h ''authorization'' = None
        \<and> getTask i s = Some task \<and> assignee task = ''Guest'' \<longrightarrow>
          userId (fst (make_context env h k)) = []
        \<and> userName (fst (make_context env h k)) = ''Guest''
        \<and> (\<exists>updated s'. updateTask i t d st a now (fst (make_context env h k)) s =
                            (Inr updated, s'))
        \<and> (\<exists>s'. deleteTask i (fst (make_context env h k)) s = (Inr True, s')))"
proof (intro conjI impI)
  show "updateTask i t d st a now (c\<lparr>userId := u\<rparr>) s = updateTask i t d st a now c s"
    by (simp add: updateTask_def split: option.splits)
  show "deleteTask i (c\<lparr>userId := u\<rparr>) s = deleteTask i c s"
    by (simp add: deleteTask_def split: option.splits)
next
  assume "getTask i s = Some task \<and> userId c = []
        \<and> (userRole c = ''admin'' \<or> userName c = assignee task)"
  then have g: "getTask i s = Some task"
    and p: "userRole c = ''admin'' \<or> userName c = assignee task" by simp_all
  from permitted_mutation_runs [OF g p]
  show "\<exists>updated s'. updateTask i t d st a now c s = (Inr updated, s')"
    and "\<exists>s'. deleteTask i c s = (Inr True, s')" by blast+
next
  let ?c = "fst (make_context env h k)"
  assume "h ''x-user-id'' = None \<and> h ''x-user-name'' = None \<and> h ''authorization'' = None
        \<and> getTask i s = Some task \<and> assignee task = ''Guest''"
  then have hd: "h ''x-user-id'' = None" "h ''x-user-name'' = None" "h ''authorization'' = None"
    and g: "getTask i s = Some task" and a: "assignee task = ''Guest''" by simp_all
  from anonymous_context [OF hd] have an: "userId ?c = []" "userName ?c = ''Guest''"
    by simp_all
  then show "userId ?c = []" and "userName ?c = ''Guest''" by simp_all
  from an(2) a have p: "userRole ?c = ''admin'' \<or> userName ?c = assignee task" by simp
  from permitted_mutation_runs [OF g p]
  show "\<exists>updated s'. updateTask i t d st a now ?c s = (Inr updated, s')"
    and "\<exists>s'. deleteTask i ?c s = (Inr True, s')" by blast+
qed

theorem mutations_never_consult_userId_witness:
  "no_headers ''x-user-id'' = None \<and> no_headers ''x-user-name'' = None
   \<and> no_headers ''authorization'' = None
   \<and> getTask ''g1'' state_guest = Some task_guest \<and> assignee task_guest = ''Guest''
   \<and> userId (fst (make_context env_offline no_headers [])) = []
   \<and> fst (updateTask ''g1'' None None (Some DONE) None ''2025-01-02T00:00:00.000Z''
            (fst (make_context env_offline no_headers [])) state_guest) =
       Inr (task_guest\<lparr> status := DONE, updatedAt := ''2025-01-02T00:00:00.000Z'' \<rparr>)
   \<and> fst (deleteTask ''g1'' (fst (make_context env_offline no_headers [])) state_guest) =
       Inr True"
proof -
  let ?c = "fst (make_context env_offline no_headers [])"
  let ?now = "''2025-01-02T00:00:00.000Z''"
  have hd: "no_headers ''x-user-id'' = None" "no_headers ''x-user-name'' = None"
    "no_headers ''authorization'' = None" by (simp_all add: no_headers_def)
  have g: "getTask ''g1'' state_guest = Some task_guest"
    by (simp add: getTask_def state_guest_def task_guest_def)
  have a: "assignee task_guest = ''Guest''" by (simp add: task_guest_def)
  from mutations_never_consult_userId
         [where i = "''g1''" and t = None and d = None and st = "Some DONE" and a = None
            and now = ?now and s = state_guest and task = task_guest and h = no_headers
            and env = env_offline and k = "[]"] hd g a
  obtain updated s' s'' where r:
    "userId ?c = []"
    "updateTask ''g1'' None None (Some DONE) None ?now ?c state_guest = (Inr updated, s')"
    "deleteTask ''g1'' ?c state_guest = (Inr True, s'')"
    by blast
  have u: "updated = task_guest\<lparr> status := DONE, updatedAt := ?now \<rparr>"
    using r(2)
    by (auto simp: updateTask_def Let_def state_guest_def merge_field_def merge_status_def
          split: if_splits)
  show ?thesis using hd g a r u by simp
qed

section \<open>updateTask: an empty string is no value\<close>

text \<open>
  Claim C10. In \<open>updateTask\<close> an argument that is the empty string does what an absent
  argument does, for title, description and assignee: the call is the same call. So the
  updated task keeps the previous value of such a field, and a field of the updated task is
  empty only if it was empty before.
\<close>

theorem updateTask_empty_string_is_absent:
  "updateTask i (Some []) d st a now c s = updateTask i None d st a now c s
   \<and> updateTask i t (Some []) st a now c s = updateTask i t None st a now c s
   \<and> updateTask i t d st (Some []) now c s = updateTask i t d st None now c s
   \<and> (getTask i s = Some task \<and> updateTask i t d st a now c s = (Inr updated, s') \<longrightarrow>
         (t = Some [] \<longrightarrow> title updated = title task)
       \<and> (d = Some [] \<longrightarrow> description updated = description task)
       \<and> (a = Some [] \<longrightarrow> assignee updated = assignee task)
       \<and> (title updated = [] \<longrightarrow> title task = [])
       \<and> (description updated = [] \<longrightarrow> description task = [])
       \<and> (assignee updated = [] \<longrightarrow> assignee task = []))"
proof (intro conjI impI)
  show "updateTask i (Some []) d st a now c s = updateTask i None d st a now c s"
    unfolding updateTask_def merge_field_empty by (rule refl)
  show "updateTask i t (Some []) st a now c s = updateTask i t None st a now c s"
    unfolding updateTask_def merge_field_empty by (rule refl)
  show "updateTask i t d st (Some []) now c s = updateTask i t d st None now c s"
    unfolding updateTask_def merge_field_empty by (rule refl)
next
  assume "getTask i s = Some task \<and> updateTask i t d st a now c s = (Inr updated, s')"
  then have f: "title updated = merge_field t (title task)"
    "description updated = merge_field d (description task)"
    "assignee updated = merge_field a (assignee task)"
    using updateTask_result_fields by blast+
  { assume "t = Some []" with f(1) show "title updated = title task"
      by (simp add: merge_field_def) }
  { assume "d = Some []" with f(2) show "description updated = description task"
      by (simp add: merge_field_def) }
  { assume "a = Some []" with f(3) show "assignee updated = assignee task"
      by (simp add: merge_field_def) }
  { assume "title updated = []" with f(1) show "title task = []"
      by (simp add: merge_field_def split: option.splits if_splits) }
  { assume "description updated = []" with f(2) show "description task = []"
      by (simp add: merge_field_def split: option.splits if_splits) }
  { assume "assignee updated = []" with f(3) show "assignee task = []"
      by (simp add: merge_field_def split: option.splits if_splits) }
qed

theorem updateTask_empty_string_is_absent_witness:
  "getTask ''t1'' state0 = Some task1
   \<and> updateTask ''t1'' (Some []) (Some []) None (Some []) ''2025-01-02T00:00:00.000Z''
        ctx_john state0 =
       (Inr (task1\<lparr> updatedAt := ''2025-01-02T00:00:00.000Z'' \<rparr>),
        state0\<lparr> tasks := (tasks state0)[0 := task1\<lparr> updatedAt := ''2025-01-02T00:00:00.000Z'' \<rparr>],
                published := [TASK_UPDATED (task1\<lparr> updatedAt := ''2025-01-02T00:00:00.000Z'' \<rparr>)] \<rparr>)
   \<and> title task1 \<noteq> []"
proof -
  let ?now = "''2025-01-02T00:00:00.000Z''"
  let ?u = "task1\<lparr> updatedAt := ?now \<rparr>"
  let ?s' = "state0\<lparr> tasks := (tasks state0)[0 := ?u], published := [TASK_UPDATED ?u] \<rparr>"
  have g: "getTask ''t1'' state0 = Some task1" by (rule getTask_t1)
  have n: "updateTask ''t1'' None None None None ?now ctx_john state0 = (Inr ?u, ?s')"
    by (simp add: updateTask_def Let_def state0_def initial_state_def ctx_john_def task1_def
          merge_field_def merge_status_def)
  have e1: "updateTask ''t1'' (Some []) (Some []) None (Some []) ?now ctx_john state0 =
            updateTask ''t1'' None (Some []) None (Some []) ?now ctx_john state0"
    using updateTask_empty_string_is_absent
            [where i = "''t1''" and d = "Some []" and st = None and a = "Some []"
               and now = ?now and c = ctx_john and s = state0] by blast
  have e2: "updateTask ''t1'' None (Some []) None (Some []) ?now ctx_john state0 =
            updateTask ''t1'' None None None (Some []) ?now ctx_john state0"
    using updateTask_empty_string_is_absent
            [where i = "''t1''" and t = None and st = None and a = "Some []"
               and now = ?now and c = ctx_john and s = state0] by blast
  have e3: "updateTask ''t1'' None None None (Some []) ?now ctx_john state0 =
            updateTask ''t1'' None None None None ?now ctx_john state0"
    using updateTask_empty_string_is_absent
            [where i = "''t1''" and t = None and d = None and st = None
               and now = ?now and c = ctx_john and s = state0] by blast
  have t: "title task1 \<noteq> []" by (simp add: task1_def)
  show ?thesis using g n e1 e2 e3 t by simp
qed

end
